theory Spec2Isabelle
  imports Complex_Main "HOL-Library.Multiset" "HOL-Library.AList"
begin

section \<open>Python and numpy values\<close>

text \<open>
  The module \<^verbatim>\<open>nclib/evaluation/fitness_functions.py\<close> scores a list of communities of an
  undirected graph. Its numbers are Python integers and floats and numpy floats.

  \<^item> Python integers are unbounded: they are \<^typ>\<open>int\<close>.
  \<^item> A finite float is modelled by the real number it stands for. The definitions of the
    first sections compute in exact arithmetic, and the statements about them are statements
    about the formulas in exact arithmetic. Where a result depends on the rounding of IEEE
    doubles, a later section writes the rounding out and the statements name the functions
    of that section.
  \<^item> Python's own division raises \<^verbatim>\<open>ZeroDivisionError\<close> on a zero divisor, for integers
    and for floats alike; numpy's functions do not raise, they return \<^verbatim>\<open>nan\<close>,
    \<^verbatim>\<open>inf\<close> or \<^verbatim>\<open>-inf\<close>. The type \<open>npfloat\<close> keeps these three values apart from the
    finite ones.
\<close>

datatype error = ZeroDivisionError | ValueError | TypeError

datatype npfloat = Finite real | PosInf | NegInf | NaN

text \<open>Python's \<^verbatim>\<open>a / b\<close> on two Python numbers (integers are converted first).\<close>

definition py_truediv :: "real \<Rightarrow> real \<Rightarrow> error + real" where
  "py_truediv a b = (if b = 0 then Inl ZeroDivisionError else Inr (a / b))"

text \<open>
  The builtins \<^verbatim>\<open>min\<close> and \<^verbatim>\<open>max\<close> on a list: \<^verbatim>\<open>ValueError\<close> on the empty list,
  otherwise a left-to-right scan that keeps the first extremal element.
\<close>

fun py_min :: "real list \<Rightarrow> error + real" where
  "py_min [] = Inl ValueError"
| "py_min (x # xs) = Inr (fold (\<lambda>item cur. if item < cur then item else cur) xs x)"

fun py_max :: "real list \<Rightarrow> error + real" where
  "py_max [] = Inl ValueError"
| "py_max (x # xs) = Inr (fold (\<lambda>item cur. if item > cur then item else cur) xs x)"

text \<open>Arithmetic of numpy floats: addition, negation, multiplication and division.\<close>

fun np_add :: "npfloat \<Rightarrow> npfloat \<Rightarrow> npfloat" where
  "np_add (Finite a) (Finite b) = Finite (a + b)"
| "np_add NaN _ = NaN"
| "np_add _ NaN = NaN"
| "np_add PosInf NegInf = NaN"
| "np_add NegInf PosInf = NaN"
| "np_add PosInf _ = PosInf"
| "np_add _ PosInf = PosInf"
| "np_add NegInf _ = NegInf"
| "np_add _ NegInf = NegInf"

fun np_neg :: "npfloat \<Rightarrow> npfloat" where
  "np_neg (Finite a) = Finite (- a)"
| "np_neg PosInf = NegInf"
| "np_neg NegInf = PosInf"
| "np_neg NaN = NaN"

definition np_sub :: "npfloat \<Rightarrow> npfloat \<Rightarrow> npfloat" where
  "np_sub a b = np_add a (np_neg b)"

text \<open>The sign of an infinite product: \<^verbatim>\<open>0 * inf\<close> is \<^verbatim>\<open>nan\<close>.\<close>

definition signed_inf :: "real \<Rightarrow> npfloat" where
  "signed_inf s = (if s > 0 then PosInf else if s < 0 then NegInf else NaN)"

fun np_mul :: "npfloat \<Rightarrow> npfloat \<Rightarrow> npfloat" where
  "np_mul (Finite a) (Finite b) = Finite (a * b)"
| "np_mul NaN _ = NaN"
| "np_mul _ NaN = NaN"
| "np_mul (Finite a) PosInf = signed_inf a"
| "np_mul (Finite a) NegInf = signed_inf (- a)"
| "np_mul PosInf (Finite b) = signed_inf b"
| "np_mul NegInf (Finite b) = signed_inf (- b)"
| "np_mul PosInf PosInf = PosInf"
| "np_mul NegInf NegInf = PosInf"
| "np_mul PosInf NegInf = NegInf"
| "np_mul NegInf PosInf = NegInf"

text \<open>
  numpy's division: a zero divisor gives \<^verbatim>\<open>inf\<close>, \<^verbatim>\<open>-inf\<close> or \<^verbatim>\<open>nan\<close> (with a
  warning), never an exception.
\<close>

fun np_div :: "npfloat \<Rightarrow> npfloat \<Rightarrow> npfloat" where
  "np_div (Finite a) (Finite b) = (if b = 0 then signed_inf a else Finite (a / b))"
| "np_div NaN _ = NaN"
| "np_div _ NaN = NaN"
| "np_div (Finite a) PosInf = Finite 0"
| "np_div (Finite a) NegInf = Finite 0"
| "np_div PosInf (Finite b) = (if b < 0 then NegInf else PosInf)"
| "np_div NegInf (Finite b) = (if b < 0 then PosInf else NegInf)"
| "np_div PosInf _ = NaN"
| "np_div NegInf _ = NaN"

text \<open>\<^verbatim>\<open>np.log\<close>, \<^verbatim>\<open>np.log2\<close> and \<^verbatim>\<open>np.sqrt\<close> on a finite Python float.\<close>

definition np_log :: "real \<Rightarrow> npfloat" where
  "np_log x = (if x > 0 then Finite (ln x) else if x = 0 then NegInf else NaN)"

definition np_log2 :: "real \<Rightarrow> npfloat" where
  "np_log2 x = (if x > 0 then Finite (log 2 x) else if x = 0 then NegInf else NaN)"

definition np_sqrt :: "real \<Rightarrow> npfloat" where
  "np_sqrt x = (if x < 0 then NaN else Finite (sqrt x))"

text \<open>
  \<^verbatim>\<open>np.mean\<close> and \<^verbatim>\<open>np.std\<close> of a list of finite numbers: the arithmetic mean and the
  population standard deviation \<^verbatim>\<open>sqrt(mean(abs(x - x.mean())**2))\<close>; both are \<^verbatim>\<open>nan\<close>
  on the empty list.
\<close>

definition np_mean :: "real list \<Rightarrow> npfloat" where
  "np_mean xs = (if xs = [] then NaN else Finite (sum_list xs / real (length xs)))"

definition np_std :: "real list \<Rightarrow> npfloat" where
  "np_std xs =
     (if xs = [] then NaN
      else let mu = sum_list xs / real (length xs)
           in Finite (sqrt (sum_list (map (\<lambda>x. \<bar>x - mu\<bar> ^ 2) xs) / real (length xs))))"

text \<open>
  \<^verbatim>\<open>scipy.special.comb(N, k, exact=True)\<close> for a count \<open>N \<ge> 0\<close>: the binomial coefficient
  as a Python integer.
\<close>

definition comb :: "int \<Rightarrow> nat \<Rightarrow> int" where
  "comb N k = int (nat N choose k)"

section \<open>Graphs\<close>

text \<open>
  A \<^verbatim>\<open>networkx.Graph\<close>: its nodes in insertion order and its undirected edges, each edge
  held once as a pair of end points. \<open>nx_graph\<close> is what the library maintains: the nodes
  are distinct, the end points of an edge are nodes, and no edge is held twice, in either
  direction. The specification assumes in addition that a graph has no self-loop;
  \<open>wf_graph\<close> is a graph of the specification.
\<close>

record 'a graph =
  nodes :: "'a list"
  edges :: "('a \<times> 'a) list"

definition nx_graph :: "'a graph \<Rightarrow> bool" where
  "nx_graph g \<longleftrightarrow>
     distinct (nodes g) \<and> distinct (edges g) \<and>
     (\<forall>(u, v) \<in> set (edges g).
        u \<in> set (nodes g) \<and> v \<in> set (nodes g) \<and> (u \<noteq> v \<longrightarrow> (v, u) \<notin> set (edges g)))"

definition no_selfloops :: "'a graph \<Rightarrow> bool" where
  "no_selfloops g \<longleftrightarrow> (\<forall>(u, v) \<in> set (edges g). u \<noteq> v)"

definition wf_graph :: "'a graph \<Rightarrow> bool" where
  "wf_graph g \<longleftrightarrow> nx_graph g \<and> no_selfloops g"

definition number_of_nodes :: "'a graph \<Rightarrow> int" where
  "number_of_nodes g = int (length (nodes g))"

definition number_of_edges :: "'a graph \<Rightarrow> int" where
  "number_of_edges g = int (length (edges g))"

text \<open>The degree of a node: the number of edge ends at it (a self-loop counts twice).\<close>

definition degree :: "'a graph \<Rightarrow> 'a \<Rightarrow> int" where
  "degree g node =
     int (length (filter (\<lambda>(u, v). u = node) (edges g))) +
     int (length (filter (\<lambda>(u, v). v = node) (edges g)))"

text \<open>
  \<^verbatim>\<open>nx.subgraph(graph, nbunch)\<close>: the subgraph induced by the nodes of \<open>nbunch\<close> that are
  nodes of the graph; members of \<open>nbunch\<close> that are not in the graph are ignored.
\<close>

definition subgraph :: "'a graph \<Rightarrow> 'a list \<Rightarrow> 'a graph" where
  "subgraph g nbunch =
     \<lparr>nodes = filter (\<lambda>v. v \<in> set nbunch) (nodes g),
      edges = filter (\<lambda>(u, v). u \<in> set nbunch \<and> v \<in> set nbunch) (edges g)\<rparr>"

text \<open>
  Modelled from the spec: \<^verbatim>\<open>nclib.utils.convert_graph_formats\<close> is not among the sources.
  The specification calls it an external adapter that yields the generic node/edge graph;
  the input is taken to be such a graph already, which the adapter returns as it is.
\<close>

definition convert_graph_formats :: "'a graph \<Rightarrow> 'a graph" where
  "convert_graph_formats g = g"

section \<open>The partition-quality library\<close>

text \<open>
  The scoring primitives of \<^verbatim>\<open>pquality.PartitionQuality\<close> are an external library. What
  the module depends on is which primitive a callable is (the membership test of
  \<^verbatim>\<open>quality_indexes\<close>) and what it returns; the latter is a parameter of the model: \<open>unary\<close>
  gives the result of a call with the community subgraph alone, \<open>binary\<close> that of a call
  with the graph and the community subgraph.
\<close>

datatype pq_name =
    PQ_average_internal_degree | PQ_internal_edge_density | PQ_triangle_participation_ratio
  | PQ_edges_inside | PQ_fraction_over_median_degree | PQ_normalized_cut | PQ_expansion
  | PQ_cut_ratio | PQ_conductance | PQ_max_odf | PQ_avg_odf | PQ_flake_odf

record 'a PartitionQuality =
  unary :: "pq_name \<Rightarrow> 'a graph \<Rightarrow> error + real"
  binary :: "pq_name \<Rightarrow> 'a graph \<Rightarrow> 'a graph \<Rightarrow> error + real"

text \<open>
  A scoring function handed to \<^verbatim>\<open>quality_indexes\<close>: a primitive of the library, or a
  two-argument function of the caller's such as the lambda of \<^verbatim>\<open>size\<close>.
\<close>

datatype 'a scoring_function =
    PQ pq_name
  | Lambda "'a graph \<Rightarrow> 'a graph \<Rightarrow> error + real"

text \<open>
  Modelled from the spec: \<^verbatim>\<open>PartitionQuality.community_modularity\<close> is not among the
  sources. The specification gives it as the standard modularity
  \<open>Q = \<Sum>\<^sub>c (e\<^sub>c/m - (d\<^sub>c/2m)\<^sup>2)\<close> of a node-to-community-id assignment: \<open>m\<close> the number of
  edges of the graph, \<open>e\<^sub>c\<close> the number of edges with both ends assigned to \<open>c\<close>, \<open>d\<^sub>c\<close> the
  sum of the degrees of the nodes assigned to \<open>c\<close>; zero edges is a division by zero.
  The assignment is a Python dict, here an association list with distinct keys.
\<close>

definition community_modularity :: "('a \<times> nat) list \<Rightarrow> 'a graph \<Rightarrow> error + real" where
  "community_modularity coms g =
     (let m = number_of_edges g in
      if m = 0 then Inl ZeroDivisionError
      else Inr (\<Sum>c \<leftarrow> remdups (map snd coms).
             real (length (filter (\<lambda>(u, v). map_of coms u = Some c \<and> map_of coms v = Some c)
                             (edges g))) / real_of_int m
             - (real_of_int (\<Sum>node \<leftarrow> filter (\<lambda>node. map_of coms node = Some c) (nodes g).
                               degree g node) / real_of_int (2 * m)) ^ 2))"

section \<open>Per-community indexed metrics\<close>

record FitnessResult =
  min_fit :: real
  max_fit :: real
  mean_fit :: npfloat
  std_fit :: npfloat

datatype quality_result = Summary FitnessResult | Values "real list"

text \<open>
  The membership test of \<^verbatim>\<open>quality_indexes\<close>: is the scoring function one of the five
  primitives that take the community subgraph alone?
\<close>

fun subgraph_only :: "'a scoring_function \<Rightarrow> bool" where
  "subgraph_only (PQ name) =
     (name \<in> set [PQ_average_internal_degree, PQ_internal_edge_density,
                  PQ_triangle_participation_ratio, PQ_edges_inside,
                  PQ_fraction_over_median_degree])"
| "subgraph_only (Lambda f) = False"

text \<open>
  Calling a scoring function with one argument and with two. A primitive of the library
  answers as the library does; the caller's two-argument function raises \<^verbatim>\<open>TypeError\<close>
  when it is given one argument only.
\<close>

fun call1 :: "'a PartitionQuality \<Rightarrow> 'a scoring_function \<Rightarrow> 'a graph \<Rightarrow> error + real" where
  "call1 pq (PQ name) community = unary pq name community"
| "call1 pq (Lambda f) community = Inl TypeError"

fun call2 ::
  "'a PartitionQuality \<Rightarrow> 'a scoring_function \<Rightarrow> 'a graph \<Rightarrow> 'a graph \<Rightarrow> error + real" where
  "call2 pq (PQ name) graph community = binary pq name graph community"
| "call2 pq (Lambda f) graph community = f graph community"

fun quality_loop ::
  "'a PartitionQuality \<Rightarrow> 'a graph \<Rightarrow> 'a scoring_function \<Rightarrow> 'a list list \<Rightarrow> real list
     \<Rightarrow> error + real list" where
  "quality_loop pq graph scoring_function [] values = Inr values"
| "quality_loop pq graph scoring_function (com # coms) values =
     (let community = subgraph graph com in
      case (if subgraph_only scoring_function then call1 pq scoring_function community
            else call2 pq scoring_function graph community) of
        Inl e \<Rightarrow> Inl e
      | Inr v \<Rightarrow> quality_loop pq graph scoring_function coms (values @ [v]))"

text \<open>
  \<^verbatim>\<open>quality_indexes(graph, communities, scoring_function, summary=True)\<close>. The last
  argument is \<open>None\<close> when the caller leaves \<^verbatim>\<open>summary\<close> out.
\<close>

definition quality_indexes ::
  "'a PartitionQuality \<Rightarrow> 'a graph \<Rightarrow> 'a list list \<Rightarrow> 'a scoring_function \<Rightarrow> bool option
     \<Rightarrow> error + quality_result" where
  "quality_indexes pq graph communities scoring_function summary =
     (let graph = convert_graph_formats graph in
      case quality_loop pq graph scoring_function communities [] of
        Inl e \<Rightarrow> Inl e
      | Inr values \<Rightarrow>
          if (case summary of None \<Rightarrow> True | Some s \<Rightarrow> s) then
            (case py_min values of
               Inl e \<Rightarrow> Inl e
             | Inr mn \<Rightarrow>
                 (case py_max values of
                    Inl e \<Rightarrow> Inl e
                  | Inr mx \<Rightarrow>
                      Inr (Summary \<lparr>min_fit = mn, max_fit = mx, mean_fit = np_mean values,
                                    std_fit = np_std values\<rparr>)))
          else Inr (Values values))"

text \<open>The wrappers; \<open>kwargs\<close> is the optional \<^verbatim>\<open>summary\<close> keyword they pass on.\<close>

definition normalized_cut where
  "normalized_cut pq graph community kwargs =
     quality_indexes pq graph community (PQ PQ_normalized_cut) kwargs"

definition internal_edge_density where
  "internal_edge_density pq graph community kwargs =
     quality_indexes pq graph community (PQ PQ_internal_edge_density) kwargs"

definition average_internal_degree where
  "average_internal_degree pq graph community kwargs =
     quality_indexes pq graph community (PQ PQ_average_internal_degree) kwargs"

definition fraction_over_median_degree where
  "fraction_over_median_degree pq graph community kwargs =
     quality_indexes pq graph community (PQ PQ_fraction_over_median_degree) kwargs"

definition expansion where
  "expansion pq graph community kwargs =
     quality_indexes pq graph community (PQ PQ_expansion) kwargs"

definition cut_ratio where
  "cut_ratio pq graph community kwargs =
     quality_indexes pq graph community (PQ PQ_cut_ratio) kwargs"

definition edges_inside where
  "edges_inside pq graph community kwargs =
     quality_indexes pq graph community (PQ PQ_edges_inside) kwargs"

definition conductance where
  "conductance pq graph community kwargs =
     quality_indexes pq graph community (PQ PQ_conductance) kwargs"

definition max_odf where
  "max_odf pq graph community kwargs =
     quality_indexes pq graph community (PQ PQ_max_odf) kwargs"

definition avg_odf where
  "avg_odf pq graph community kwargs =
     quality_indexes pq graph community (PQ PQ_avg_odf) kwargs"

definition flake_odf where
  "flake_odf pq graph community kwargs =
     quality_indexes pq graph community (PQ PQ_flake_odf) kwargs"

definition triangle_participation_ratio where
  "triangle_participation_ratio pq graph community kwargs =
     quality_indexes pq graph community (PQ PQ_triangle_participation_ratio) kwargs"

text \<open>
  \<^verbatim>\<open>size\<close>: the lambda receives the graph and the community subgraph, and \<^verbatim>\<open>len\<close> of a
  graph is its number of nodes.
\<close>

definition size_metric ::
  "'a PartitionQuality \<Rightarrow> 'a graph \<Rightarrow> 'a list list \<Rightarrow> bool option \<Rightarrow> error + quality_result" where
  "size_metric pq graph community kwargs =
     quality_indexes pq graph community
       (Lambda (\<lambda>graph com. Inr (real_of_int (number_of_nodes com)))) kwargs"

section \<open>Global modularity-family metrics\<close>

subsection \<open>Newman-Girvan modularity\<close>

text \<open>
  The dict \<^verbatim>\<open>partition\<close> (here \<open>part\<close>) is an association list with distinct keys; \<^verbatim>\<open>partition[node] = cid\<close>
  overwrites the entry of a key that is present and adds one at the end otherwise. The two
  loops, the inner over the nodes of one community and the outer over the enumerated
  communities:
\<close>

fun assign_nodes :: "nat \<Rightarrow> 'a list \<Rightarrow> ('a \<times> nat) list \<Rightarrow> ('a \<times> nat) list" where
  "assign_nodes cid [] part = part"
| "assign_nodes cid (node # com) part =
     assign_nodes cid com (AList.update node cid part)"

fun assign_communities :: "nat \<Rightarrow> 'a list list \<Rightarrow> ('a \<times> nat) list \<Rightarrow> ('a \<times> nat) list" where
  "assign_communities cid [] part = part"
| "assign_communities cid (com # coms) part =
     assign_communities (Suc cid) coms (assign_nodes cid com part)"

text \<open>
  The function with the library's modularity routine as a parameter: it builds the
  assignment and hands it, with the graph, to the routine. \<^verbatim>\<open>newman_girvan_modularity\<close> is
  this function with \<open>community_modularity\<close> as the routine.
\<close>

definition newman_girvan_modularity_via ::
  "(('a \<times> nat) list \<Rightarrow> 'a graph \<Rightarrow> 'r) \<Rightarrow> 'a graph \<Rightarrow> 'a list list \<Rightarrow> 'r" where
  "newman_girvan_modularity_via routine graph communities =
     (let graph = convert_graph_formats graph;
          part = assign_communities 0 communities []
      in routine part graph)"

definition newman_girvan_modularity :: "'a graph \<Rightarrow> 'a list list \<Rightarrow> error + real" where
  "newman_girvan_modularity graph communities =
     newman_girvan_modularity_via community_modularity graph communities"

subsection \<open>Erdos-Renyi modularity\<close>

fun erdos_renyi_loop :: "'a graph \<Rightarrow> int \<Rightarrow> int \<Rightarrow> 'a list list \<Rightarrow> real \<Rightarrow> error + real" where
  "erdos_renyi_loop graph m n [] q = Inr q"
| "erdos_renyi_loop graph m n (community # rest) q =
     (let c = subgraph graph community;
          mc = number_of_edges c;
          nc = number_of_nodes c
      in case py_truediv (real_of_int (m * nc * (nc - 1))) (real_of_int (n * (n - 1))) of
           Inl e \<Rightarrow> Inl e
         | Inr x \<Rightarrow> erdos_renyi_loop graph m n rest (q + (real_of_int mc - x)))"

definition erdos_renyi_modularity :: "'a graph \<Rightarrow> 'a list list \<Rightarrow> error + real" where
  "erdos_renyi_modularity graph communities =
     (let m = number_of_edges graph;
          n = number_of_nodes graph
      in case erdos_renyi_loop graph m n communities 0 of
           Inl e \<Rightarrow> Inl e
         | Inr q \<Rightarrow>
             (case py_truediv 1 (real_of_int m) of
                Inl e \<Rightarrow> Inl e
              | Inr w \<Rightarrow> Inr (w * q)))"

subsection \<open>Modularity density\<close>

text \<open>
  The inner loop fills \<^verbatim>\<open>dint\<close> and \<^verbatim>\<open>dext\<close> with one entry per node of the community
  subgraph; \<^verbatim>\<open>1 / nc\<close> is a Python division and is evaluated before the means.
\<close>

fun modularity_density_loop :: "'a graph \<Rightarrow> 'a list list \<Rightarrow> npfloat \<Rightarrow> error + npfloat" where
  "modularity_density_loop graph [] q = Inr q"
| "modularity_density_loop graph (community # rest) q =
     (let c = subgraph graph community;
          nc = number_of_nodes c;
          dint = map (\<lambda>node. real_of_int (degree c node)) (nodes c);
          dext = map (\<lambda>node. real_of_int (degree graph node - degree c node)) (nodes c)
      in case py_truediv 1 (real_of_int nc) of
           Inl e \<Rightarrow> Inl e
         | Inr w \<Rightarrow>
             modularity_density_loop graph rest
               (np_add q (np_mul (Finite w) (np_sub (np_mean dint) (np_mean dext)))))"

definition modularity_density :: "'a graph \<Rightarrow> 'a list list \<Rightarrow> error + npfloat" where
  "modularity_density graph communities = modularity_density_loop graph communities (Finite 0)"

subsection \<open>Z-modularity\<close>

text \<open>The inner loop \<^verbatim>\<open>for node in c: dc += c.degree(node)\<close>.\<close>

definition degree_sum :: "'a graph \<Rightarrow> int" where
  "degree_sum c = fold (\<lambda>node dc. dc + degree c node) (nodes c) 0"

fun z_modularity_loop ::
  "'a graph \<Rightarrow> int \<Rightarrow> 'a list list \<Rightarrow> real \<times> real \<Rightarrow> error + real \<times> real" where
  "z_modularity_loop graph m [] (mmc, dc2m) = Inr (mmc, dc2m)"
| "z_modularity_loop graph m (community # rest) (mmc, dc2m) =
     (let c = subgraph graph community;
          mc = number_of_edges c;
          dc = degree_sum c
      in case py_truediv (real_of_int mc) (real_of_int m) of
           Inl e \<Rightarrow> Inl e
         | Inr x \<Rightarrow>
             (case py_truediv (real_of_int dc) (real_of_int (2 * m)) of
                Inl e \<Rightarrow> Inl e
              | Inr y \<Rightarrow> z_modularity_loop graph m rest (mmc + x, dc2m + y ^ 2)))"

text \<open>The last division has a numpy float as divisor, so it does not raise.\<close>

definition z_modularity :: "'a graph \<Rightarrow> 'a list list \<Rightarrow> error + npfloat" where
  "z_modularity graph communities =
     (let m = number_of_edges graph
      in case z_modularity_loop graph m communities (0, 0) of
           Inl e \<Rightarrow> Inl e
         | Inr (mmc, dc2m) \<Rightarrow>
             Inr (np_div (Finite (mmc - dc2m)) (np_sqrt (dc2m * (1 - dc2m)))))"

text \<open>
  The simplified expression of Z-modularity, written with the edge counts only:
  \<open>(\<Sum>\<^sub>c mc/m - \<Sum>\<^sub>c (mc/m)\<^sup>2) / sqrt (\<Sum>\<^sub>c (mc/m)\<^sup>2 * (1 - \<Sum>\<^sub>c (mc/m)\<^sup>2))\<close>.
\<close>

definition z_modularity_simplified :: "'a graph \<Rightarrow> 'a list list \<Rightarrow> npfloat" where
  "z_modularity_simplified graph communities =
     (let m = real_of_int (number_of_edges graph);
          s1 = (\<Sum>com \<leftarrow> communities. real_of_int (number_of_edges (subgraph graph com)) / m);
          s2 = (\<Sum>com \<leftarrow> communities.
                  (real_of_int (number_of_edges (subgraph graph com)) / m) ^ 2)
      in np_div (Finite (s1 - s2)) (np_sqrt (s2 * (1 - s2))))"

subsection \<open>Surprise and significance\<close>

fun surprise_loop :: "'a graph \<Rightarrow> 'a list list \<Rightarrow> int \<times> int \<Rightarrow> int \<times> int" where
  "surprise_loop graph [] (q, qa) = (q, qa)"
| "surprise_loop graph (community # rest) (q, qa) =
     (let c = subgraph graph community;
          mc = number_of_edges c;
          nc = number_of_nodes c
      in surprise_loop graph rest (q + mc, qa + comb nc 2))"

definition surprise :: "'a graph \<Rightarrow> 'a list list \<Rightarrow> error + npfloat" where
  "surprise graph communities =
     (let m = number_of_edges graph;
          n = number_of_nodes graph
      in case surprise_loop graph communities (0, 0) of
           (q, qa) \<Rightarrow>
             (case py_truediv (real_of_int q) (real_of_int m) of
                Inl e \<Rightarrow> Inl e
              | Inr q \<Rightarrow>
             (case py_truediv (real_of_int qa) (real_of_int (comb n 2)) of
                Inl e \<Rightarrow> Inl e
              | Inr qa \<Rightarrow>
             (case py_truediv q qa of
                Inl e \<Rightarrow> Inl e
              | Inr r1 \<Rightarrow>
             (case py_truediv (1 - q) (1 - qa) of
                Inl e \<Rightarrow> Inl e
              | Inr r2 \<Rightarrow>
                  Inr (np_mul (Finite (real_of_int m))
                         (np_add (np_mul (Finite q) (np_log r1))
                                 (np_mul (Finite (1 - q)) (np_log2 r2)))))))))"

fun significance_loop :: "'a graph \<Rightarrow> real \<Rightarrow> 'a list list \<Rightarrow> npfloat \<Rightarrow> error + npfloat" where
  "significance_loop graph p [] q = Inr q"
| "significance_loop graph p (community # rest) q =
     (let c = subgraph graph community;
          nc = number_of_nodes c;
          mc = number_of_edges c;
          binom_c = comb nc 2
      in case py_truediv (real_of_int mc) (real_of_int binom_c) of
           Inl e \<Rightarrow> Inl e
         | Inr pc \<Rightarrow>
        (case py_truediv pc p of
           Inl e \<Rightarrow> Inl e
         | Inr r1 \<Rightarrow>
        (case py_truediv (1 - pc) (1 - p) of
           Inl e \<Rightarrow> Inl e
         | Inr r2 \<Rightarrow>
             significance_loop graph p rest
               (np_add q
                  (np_mul (Finite (real_of_int binom_c))
                     (np_add (np_mul (Finite pc) (np_log r1))
                             (np_mul (Finite (1 - pc)) (np_log r2))))))))"

definition significance :: "'a graph \<Rightarrow> 'a list list \<Rightarrow> error + npfloat" where
  "significance graph communities =
     (let m = number_of_edges graph;
          binom = comb m 2
      in case py_truediv (real_of_int m) (real_of_int binom) of
           Inl e \<Rightarrow> Inl e
         | Inr p \<Rightarrow> significance_loop graph p communities (Finite 0))"

subsection \<open>The ring of four nodes\<close>

definition ring4 :: "nat graph" where
  "ring4 = \<lparr>nodes = [0, 1, 2, 3], edges = [(0, 1), (1, 2), (2, 3), (3, 0)]\<rparr>"

subsection \<open>Inputs of the data model and sample inputs\<close>

text \<open>
  The specification's communities are an ordered sequence of node subsets of the graph:
  every member of every community is a node of the graph. Overlap and omitted nodes are
  allowed.
\<close>

definition node_subsets :: "'a graph \<Rightarrow> 'a list list \<Rightarrow> bool" where
  "node_subsets g communities \<longleftrightarrow> (\<forall>com \<in> set communities. set com \<subseteq> set (nodes g))"

text \<open>
  A stand-in for the external library, used to run the model on concrete inputs: its
  one-argument primitives count the edges of the community, its two-argument primitives
  the edges of the graph outside the community.
\<close>

definition sample_pq :: "'a PartitionQuality" where
  "sample_pq =
     \<lparr>unary = (\<lambda>name c. Inr (real_of_int (number_of_edges c))),
      binary = (\<lambda>name g c. Inr (real_of_int (number_of_edges g - number_of_edges c)))\<rparr>"

section \<open>The computations in IEEE doubles\<close>

text \<open>
  The definitions so far compute in exact arithmetic. What the interpreter computes is a
  double after every operation on floats. This section writes the rounding out for the
  functions whose results depend on it: the mean and the standard deviation of
  \<^verbatim>\<open>quality_indexes\<close>, \<^verbatim>\<open>erdos_renyi_modularity\<close> and \<^verbatim>\<open>modularity_density\<close>.

  A double has a significand of 53 bits, and every operation returns the double nearest to
  the exact result, a tie going to the even significand. The exponent is taken to be
  unbounded: overflow and subnormal numbers are not modelled, and neither is the sign of
  zero. \<open>rne\<close> rounds to the nearest integer, ties to even; \<open>flpos\<close> scales a positive number
  by powers of two into the range from \<open>2^52\<close> to \<open>2^53\<close>, rounds it there and scales back;
  \<open>fl\<close> is the rounding of any real number.
\<close>

definition rne :: "real \<Rightarrow> real" where
  "rne x =
     (let f = \<lfloor>x\<rfloor>; d = x - of_int f in
      if d < 1 / 2 then of_int f
      else if 1 / 2 < d then of_int (f + 1)
      else if even f then of_int f else of_int (f + 1))"

function flpos :: "real \<Rightarrow> real" where
  "flpos x =
     (if x \<le> 0 then 0
      else if 2 ^ 53 \<le> x then 2 * flpos (x / 2)
      else if x < 2 ^ 52 then flpos (2 * x) / 2
      else rne x)"
  by pat_completeness auto
termination
proof (relation "measure (\<lambda>x. nat \<bar>\<lfloor>log 2 x\<rfloor> - 52\<bar>)")
  show "wf (measure (\<lambda>x. nat \<bar>\<lfloor>log 2 x\<rfloor> - 52\<bar>))" by simp
next
  fix x :: real
  assume "\<not> x \<le> 0" "2 ^ 53 \<le> x"
  then have "2 powr 53 \<le> x" by simp
  then have "53 \<le> log 2 x"
    using \<open>\<not> x \<le> 0\<close> by (simp add: le_log_iff)
  then have "53 \<le> \<lfloor>log 2 x\<rfloor>" by (simp add: le_floor_iff)
  moreover have "log 2 (x / 2) = log 2 x - 1"
    using \<open>\<not> x \<le> 0\<close> by (simp add: log_divide)
  then have "\<lfloor>log 2 (x / 2)\<rfloor> = \<lfloor>log 2 x\<rfloor> - 1" by simp
  ultimately show "(x / 2, x) \<in> measure (\<lambda>x. nat \<bar>\<lfloor>log 2 x\<rfloor> - 52\<bar>)"
    by simp
next
  fix x :: real
  assume "\<not> x \<le> 0" "\<not> 2 ^ 53 \<le> x" "x < 2 ^ 52"
  then have "x < 2 powr 52" by simp
  then have "log 2 x < 52"
    using \<open>\<not> x \<le> 0\<close> by (simp add: log_less_iff)
  then have "\<lfloor>log 2 x\<rfloor> < 52" by (simp add: floor_less_iff)
  moreover have "log 2 (2 * x) = log 2 x + 1"
    using \<open>\<not> x \<le> 0\<close> by (simp add: log_mult)
  then have "\<lfloor>log 2 (2 * x)\<rfloor> = \<lfloor>log 2 x\<rfloor> + 1" by simp
  ultimately show "(2 * x, x) \<in> measure (\<lambda>x. nat \<bar>\<lfloor>log 2 x\<rfloor> - 52\<bar>)"
    by simp
qed

declare flpos.simps [simp del]

definition fl :: "real \<Rightarrow> real" where
  "fl x = (if x < 0 then - flpos (- x) else flpos x)"

text \<open>Rounding of a numpy float, and Python's \<^verbatim>\<open>a / b\<close> with its result rounded.\<close>

definition np_fl :: "npfloat \<Rightarrow> npfloat" where
  "np_fl a = (case a of Finite x \<Rightarrow> Finite (fl x) | _ \<Rightarrow> a)"

definition py_truediv_double :: "real \<Rightarrow> real \<Rightarrow> error + real" where
  "py_truediv_double a b = (if b = 0 then Inl ZeroDivisionError else Inr (fl (a / b)))"

text \<open>
  numpy adds the elements of a float array pairwise: fewer than eight elements from left to
  right; up to 128 elements in eight running sums over blocks of eight, the eight sums
  then added in pairs and the remaining elements added from left to right; a longer array
  is split in two near the middle, at a multiple of eight. \<open>blocks8\<close> is the loop over the
  complete blocks of eight.
\<close>

function blocks8 :: "real list \<Rightarrow> real list \<Rightarrow> real list \<times> real list" where
  "blocks8 r xs =
     (if length xs < 8 then (r, xs)
      else blocks8 (map2 (\<lambda>p x. fl (p + x)) r (take 8 xs)) (drop 8 xs))"
  by pat_completeness auto
termination
  by (relation "measure (\<lambda>(r, xs). length xs)") auto

declare blocks8.simps [simp del]

function pairwise_sum :: "real list \<Rightarrow> real" where
  "pairwise_sum a =
     (let n = length a in
      if n < 8 then foldl (\<lambda>res x. fl (res + x)) 0 a
      else if n \<le> 128 then
        (case blocks8 (take 8 a) (drop 8 a) of
           (r, rest) \<Rightarrow>
             foldl (\<lambda>res x. fl (res + x))
               (fl (fl (fl (r ! 0 + r ! 1) + fl (r ! 2 + r ! 3)) +
                    fl (fl (r ! 4 + r ! 5) + fl (r ! 6 + r ! 7))))
               rest)
      else
        (let n2 = n div 2 - (n div 2) mod 8
         in fl (pairwise_sum (take n2 a) + pairwise_sum (drop n2 a))))"
  by pat_completeness auto
termination
  by (relation "measure length") auto

declare pairwise_sum.simps [simp del]

text \<open>
  \<^verbatim>\<open>np.mean\<close> divides the sum by the count. \<^verbatim>\<open>np.std\<close> takes the mean, the differences
  from it, their squares, the mean of the squares and the square root, rounding after each
  operation.
\<close>

definition np_mean_double :: "real list \<Rightarrow> npfloat" where
  "np_mean_double xs =
     (if xs = [] then NaN else Finite (fl (pairwise_sum xs / real (length xs))))"



text \<open>
  \<^verbatim>\<open>erdos_renyi_modularity\<close>: the quotient of two integers is rounded, \<open>mc\<close> is converted to
  a float and the difference rounded, and so are every \<^verbatim>\<open>q +=\<close> and the last product.
\<close>

fun erdos_renyi_loop_double ::
  "'a graph \<Rightarrow> int \<Rightarrow> int \<Rightarrow> 'a list list \<Rightarrow> real \<Rightarrow> error + real" where
  "erdos_renyi_loop_double graph m n [] q = Inr q"
| "erdos_renyi_loop_double graph m n (community # rest) q =
     (let c = subgraph graph community;
          mc = number_of_edges c;
          nc = number_of_nodes c
      in case py_truediv_double (real_of_int (m * nc * (nc - 1))) (real_of_int (n * (n - 1))) of
           Inl e \<Rightarrow> Inl e
         | Inr x \<Rightarrow>
             erdos_renyi_loop_double graph m n rest (fl (q + fl (fl (real_of_int mc) - x))))"

definition erdos_renyi_modularity_double :: "'a graph \<Rightarrow> 'a list list \<Rightarrow> error + real" where
  "erdos_renyi_modularity_double graph communities =
     (let m = number_of_edges graph;
          n = number_of_nodes graph
      in case erdos_renyi_loop_double graph m n communities 0 of
           Inl e \<Rightarrow> Inl e
         | Inr q \<Rightarrow>
             (case py_truediv_double 1 (real_of_int m) of
                Inl e \<Rightarrow> Inl e
              | Inr w \<Rightarrow> Inr (fl (w * q))))"

text \<open>
  \<^verbatim>\<open>modularity_density\<close>: the degrees are converted to floats for the means, and the
  difference of the means, its product with \<^verbatim>\<open>1 / nc\<close> and every \<^verbatim>\<open>q +=\<close> are rounded.
\<close>

fun modularity_density_loop_double ::
  "'a graph \<Rightarrow> 'a list list \<Rightarrow> npfloat \<Rightarrow> error + npfloat" where
  "modularity_density_loop_double graph [] q = Inr q"
| "modularity_density_loop_double graph (community # rest) q =
     (let c = subgraph graph community;
          nc = number_of_nodes c;
          dint = map (\<lambda>node. fl (real_of_int (degree c node))) (nodes c);
          dext = map (\<lambda>node. fl (real_of_int (degree graph node - degree c node))) (nodes c)
      in case py_truediv_double 1 (real_of_int nc) of
           Inl e \<Rightarrow> Inl e
         | Inr w \<Rightarrow>
             modularity_density_loop_double graph rest
               (np_fl (np_add q
                  (np_fl (np_mul (Finite w)
                     (np_fl (np_sub (np_mean_double dint) (np_mean_double dext))))))))"

definition modularity_density_double :: "'a graph \<Rightarrow> 'a list list \<Rightarrow> error + npfloat" where
  "modularity_density_double graph communities =
     modularity_density_loop_double graph communities (Finite 0)"


text \<open>Three small graphs on which the rounding shows.\<close>

definition three_pairs :: "nat graph" where
  "three_pairs = \<lparr>nodes = [0, 1, 2, 3, 4, 5], edges = [(0, 2), (1, 4), (4, 5)]\<rparr>"

definition small_tree :: "nat graph" where
  "small_tree = \<lparr>nodes = [0, 1, 2, 3, 4], edges = [(0, 1), (0, 2), (1, 3)]\<rparr>"


section \<open>Properties of the per-community indexed metrics\<close>

subsection \<open>The loop, the builtins and the mean\<close>

lemma quality_loop_values:
  "map (\<lambda>com. if subgraph_only f then call1 pq f (subgraph G com)
               else call2 pq f G (subgraph G com)) P = map Inr vs
   \<Longrightarrow> quality_loop pq G f P acc = Inr (acc @ vs)"
proof (induction P arbitrary: acc vs)
  case Nil
  then show ?case by simp
next
  case (Cons com P)
  from Cons.prems obtain v vs' where vs: "vs = v # vs'"
    by (cases vs) auto
  with Cons.prems have hd: "(if subgraph_only f then call1 pq f (subgraph G com)
               else call2 pq f G (subgraph G com)) = Inr v"
    and tl: "map (\<lambda>com. if subgraph_only f then call1 pq f (subgraph G com)
               else call2 pq f G (subgraph G com)) P = map Inr vs'"
    by auto
  from Cons.IH[OF tl] hd show ?case
    by (simp add: vs)
qed

lemma py_min_Min: "xs \<noteq> [] \<Longrightarrow> py_min xs = Inr (Min (set xs))"
proof (cases xs)
  case Nil
  assume "xs \<noteq> []"
  with Nil show ?thesis by simp
next
  case (Cons x ys)
  have "(\<lambda>item cur. if item < cur then item else cur) = (min :: real \<Rightarrow> real \<Rightarrow> real)"
    by (intro ext) (auto simp: min_def)
  moreover have "Min (set (x # ys)) = fold min ys x"
    by (rule Min.set_eq_fold)
  ultimately show ?thesis
    using Cons by simp
qed

lemma py_max_Max: "xs \<noteq> [] \<Longrightarrow> py_max xs = Inr (Max (set xs))"
proof (cases xs)
  case Nil
  assume "xs \<noteq> []"
  with Nil show ?thesis by simp
next
  case (Cons x ys)
  have "(\<lambda>item cur. if item > cur then item else cur) = (max :: real \<Rightarrow> real \<Rightarrow> real)"
    by (intro ext) (auto simp: max_def)
  moreover have "Max (set (x # ys)) = fold max ys x"
    by (rule Max.set_eq_fold)
  ultimately show ?thesis
    using Cons by simp
qed





lemma quality_indexes_values:
  assumes "map (\<lambda>com. if subgraph_only f then call1 pq f (subgraph G com)
               else call2 pq f G (subgraph G com)) P = map Inr vs"
  shows "quality_indexes pq G P f (Some False) = Inr (Values vs)"
  using quality_loop_values[OF assms, of "[]"]
  by (simp add: quality_indexes_def convert_graph_formats_def)

lemma quality_indexes_summary:
  assumes "map (\<lambda>com. if subgraph_only f then call1 pq f (subgraph G com)
               else call2 pq f G (subgraph G com)) P = map Inr vs"
    and "P \<noteq> []" and "s = None \<or> s = Some True"
  shows "quality_indexes pq G P f s =
         Inr (Summary \<lparr>min_fit = Min (set vs), max_fit = Max (set vs),
                mean_fit = np_mean vs, std_fit = np_std vs\<rparr>)"
proof -
  have "length vs = length P"
    using assms(1) by (metis length_map)
  then have ne: "vs \<noteq> []" using assms(2) by auto
  show ?thesis
    using quality_loop_values[OF assms(1), of "[]"] py_min_Min[OF ne] py_max_Max[OF ne] assms(3)
    by (auto simp: quality_indexes_def convert_graph_formats_def)
qed

lemma subgraph_node_count:
  assumes "distinct (nodes G)" and "set com \<subseteq> set (nodes G)"
  shows "number_of_nodes (subgraph G com) = int (card (set com))"
proof -
  have "set (filter (\<lambda>v. v \<in> set com) (nodes G)) = set com"
    using assms(2) by auto
  moreover have "distinct (filter (\<lambda>v. v \<in> set com) (nodes G))"
    using assms(1) by simp
  ultimately have "length (filter (\<lambda>v. v \<in> set com) (nodes G)) = card (set com)"
    by (metis distinct_card)
  then show ?thesis
    by (simp add: number_of_nodes_def subgraph_def)
qed

lemma nx_ring4: "nx_graph ring4"
  by (simp add: nx_graph_def ring4_def)

lemma wf_ring4: "wf_graph ring4"
  by (simp add: wf_graph_def nx_ring4 no_selfloops_def) (simp add: ring4_def)

subsection \<open>The contract of \<^verbatim>\<open>quality_indexes\<close>\<close>

text \<open>
  C1. For a graph \<open>G\<close>, a non-empty list of communities \<open>P\<close> and a primitive \<open>name\<close> of the
  library whose scores on the communities are \<open>vs\<close>: the value for the \<open>i\<close>-th community is
  the primitive applied to the induced subgraph alone for the five subgraph-only metrics
  (average internal degree, internal edge density, triangle participation ratio, edges
  inside, fraction over median degree), and to the graph and the induced subgraph for the
  graph-relative ones (conductance, expansion, cut ratio, the odf variants, normalized
  cut), in the order of the communities. \<^verbatim>\<open>quality_indexes\<close> returns the list of these
  values when \<^verbatim>\<open>summary=False\<close>, and the tuple of their minimum, maximum, mean and standard
  deviation when \<^verbatim>\<open>summary=True\<close>, which is also what it does when \<^verbatim>\<open>summary\<close> is left out.
\<close>

theorem quality_indexes_contract:
  assumes "P \<noteq> []" and "length vs = length P"
    and "name \<in> {PQ_average_internal_degree, PQ_internal_edge_density,
                  PQ_triangle_participation_ratio, PQ_edges_inside,
                  PQ_fraction_over_median_degree}
         \<Longrightarrow> \<forall>i<length P. unary pq name (subgraph G (P ! i)) = Inr (vs ! i)"
    and "name \<in> {PQ_conductance, PQ_expansion, PQ_cut_ratio, PQ_max_odf, PQ_avg_odf,
                  PQ_flake_odf, PQ_normalized_cut}
         \<Longrightarrow> \<forall>i<length P. binary pq name G (subgraph G (P ! i)) = Inr (vs ! i)"
  shows "quality_indexes pq G P (PQ name) (Some False) = Inr (Values vs) \<and>
         quality_indexes pq G P (PQ name) (Some True) =
           Inr (Summary
             \<lparr>min_fit = Min (set vs), max_fit = Max (set vs),
              mean_fit = Finite (sum_list vs / real (length vs)),
              std_fit = Finite (sqrt ((\<Sum>x\<leftarrow>vs. (x - sum_list vs / real (length vs))\<^sup>2)
                                      / real (length vs)))\<rparr>) \<and>
         quality_indexes pq G P (PQ name) None = quality_indexes pq G P (PQ name) (Some True)"
proof -
  let ?g = "\<lambda>com. if subgraph_only (PQ name :: 'a scoring_function)
                   then call1 pq (PQ name) (subgraph G com)
                   else call2 pq (PQ name) G (subgraph G com)"
  have each: "?g (P ! i) = Inr (vs ! i)" if "i < length P" for i
    using that assms(3,4) by (cases name) simp_all
  have m: "map ?g P = map Inr vs"
  proof (rule nth_equalityI)
    show "length (map ?g P) = length (map Inr vs)"
      by (simp add: assms(2))
    fix i
    assume "i < length (map ?g P)"
    then have i: "i < length P" by simp
    then have "i < length vs" by (simp add: assms(2))
    with i each[OF i] show "map ?g P ! i = map Inr vs ! i"
      by (simp only: nth_map)
  qed
  have ne: "vs \<noteq> []" using assms(1,2) by auto
  have "quality_indexes pq G P (PQ name) (Some False) = Inr (Values vs)"
    by (rule quality_indexes_values[OF m])
  moreover have "quality_indexes pq G P (PQ name) s =
         Inr (Summary \<lparr>min_fit = Min (set vs), max_fit = Max (set vs),
                mean_fit = np_mean vs, std_fit = np_std vs\<rparr>)"
    if "s = None \<or> s = Some True" for s
    by (rule quality_indexes_summary[OF m assms(1) that])
  ultimately show ?thesis
    using ne by (simp add: np_mean_def np_std_def Let_def)
qed

theorem quality_indexes_contract_witness:
  "quality_indexes sample_pq ring4 [[0, 1], [1, 2, 3]] (PQ PQ_edges_inside) (Some False)
     = Inr (Values [1, 2]) \<and>
   quality_indexes sample_pq ring4 [[0, 1], [1, 2, 3]] (PQ PQ_edges_inside) None
     = Inr (Summary \<lparr>min_fit = 1, max_fit = 2, mean_fit = Finite (3 / 2),
                      std_fit = Finite (1 / 2)\<rparr>) \<and>
   quality_indexes sample_pq ring4 [[0, 1], [1, 2, 3]] (PQ PQ_cut_ratio) (Some False)
     = Inr (Values [3, 2])"
proof -
  have u: "\<forall>i<length [[0, 1], [1, 2, 3::nat]].
      unary sample_pq PQ_edges_inside (subgraph ring4 ([[0, 1], [1, 2, 3]] ! i)) = Inr ([1, 2] ! i)"
    by (simp add: All_less_Suc sample_pq_def subgraph_def ring4_def number_of_edges_def)
  have b: "\<forall>i<length [[0, 1], [1, 2, 3::nat]].
      binary sample_pq PQ_cut_ratio ring4 (subgraph ring4 ([[0, 1], [1, 2, 3]] ! i)) = Inr ([3, 2] ! i)"
    by (simp add: All_less_Suc sample_pq_def subgraph_def ring4_def number_of_edges_def)
  have s: "sqrt (1 / 4) = 1 / 2"
    by (simp add: real_sqrt_divide)
  from quality_indexes_contract[of "[[0, 1], [1, 2, 3]]" "[1, 2]" PQ_edges_inside sample_pq ring4]
       quality_indexes_contract[of "[[0, 1], [1, 2, 3]]" "[3, 2]" PQ_cut_ratio sample_pq ring4]
       u b s
  show ?thesis
    by (simp add: power2_eq_square)
qed

text \<open>
  C6. On an empty list of communities every per-community indexed metric called with
  \<^verbatim>\<open>summary=True\<close>, given or by default, fails: \<^verbatim>\<open>min\<close> of the empty list of values raises
  \<^verbatim>\<open>ValueError\<close> and no value is returned.
\<close>

theorem quality_indexes_empty_partition:
  "quality_indexes pq graph [] scoring_function (Some True) = Inl ValueError \<and>
   quality_indexes pq graph [] scoring_function None = Inl ValueError"
  by (simp add: quality_indexes_def)

text \<open>
  C3. For a graph \<open>G\<close> and communities \<open>P\<close> that are node subsets of \<open>G\<close>, the size metric
  with \<^verbatim>\<open>summary=False\<close> returns the list whose \<open>i\<close>-th element is the number of nodes of the
  \<open>i\<close>-th community.
\<close>

theorem size_is_cardinality:
  assumes "nx_graph G" and "node_subsets G P"
  shows "size_metric pq G P (Some False) = Inr (Values (map (\<lambda>com. real (card (set com))) P))"
proof -
  have d: "distinct (nodes G)" using assms(1) by (simp add: nx_graph_def)
  let ?f = "Lambda (\<lambda>graph com. Inr (real_of_int (number_of_nodes com)))"
  have "map (\<lambda>com. if subgraph_only ?f then call1 pq ?f (subgraph G com)
               else call2 pq ?f G (subgraph G com)) P
        = map Inr (map (\<lambda>com. real (card (set com))) P)"
    using assms(2) by (simp add: node_subsets_def subgraph_node_count[OF d])
  then show ?thesis
    unfolding size_metric_def by (rule quality_indexes_values)
qed

theorem size_is_cardinality_witness:
  "nx_graph ring4 \<and> node_subsets ring4 [[0, 1], [1, 2, 3]] \<and>
   size_metric sample_pq ring4 [[0, 1], [1, 2, 3]] (Some False) = Inr (Values [2, 3])"
proof -
  have n: "node_subsets ring4 [[0, 1], [1, 2, 3]]"
    by (simp add: node_subsets_def ring4_def)
  from size_is_cardinality[OF nx_ring4 n, of sample_pq] nx_ring4 n
  show ?thesis by simp
qed

section \<open>Properties of the global metrics\<close>

subsection \<open>Newman-Girvan modularity\<close>

lemma map_of_assign_nodes:
  "map_of (assign_nodes cid com part) node = (if node \<in> set com then Some cid else map_of part node)"
  by (induction com arbitrary: part) (auto simp: update_conv')

lemma assign_communities_absent:
  "\<forall>com\<in>set coms. node \<notin> set com
   \<Longrightarrow> map_of (assign_communities cid coms part) node = map_of part node"
  by (induction coms arbitrary: cid part) (auto simp: map_of_assign_nodes)

lemma assign_communities_last:
  assumes "i < length coms" and "node \<in> set (coms ! i)"
    and "\<forall>j. i < j \<and> j < length coms \<longrightarrow> node \<notin> set (coms ! j)"
  shows "map_of (assign_communities cid coms part) node = Some (cid + i)"
  using assms
proof (induction coms arbitrary: cid part i)
  case Nil
  then show ?case by simp
next
  case (Cons com coms)
  show ?case
  proof (cases i)
    case 0
    have "\<forall>c\<in>set coms. node \<notin> set c"
    proof
      fix c assume "c \<in> set coms"
      then obtain j where "j < length coms" "coms ! j = c"
        by (auto simp: in_set_conv_nth)
      with Cons.prems(3)[rule_format, of "Suc j"] 0 show "node \<notin> set c"
        by auto
    qed
    then show ?thesis
      using Cons.prems(2) 0 by (simp add: assign_communities_absent map_of_assign_nodes)
  next
    case (Suc k)
    have "map_of (assign_communities (Suc cid) coms (assign_nodes cid com part)) node
          = Some (Suc cid + k)"
    proof (rule Cons.IH)
      show "k < length coms" using Cons.prems(1) Suc by simp
      show "node \<in> set (coms ! k)" using Cons.prems(2) Suc by simp
      show "\<forall>j. k < j \<and> j < length coms \<longrightarrow> node \<notin> set (coms ! j)"
      proof (intro allI impI)
        fix j assume "k < j \<and> j < length coms"
        with Cons.prems(3)[rule_format, of "Suc j"] Suc show "node \<notin> set (coms ! j)"
          by auto
      qed
    qed
    then show ?thesis using Suc by simp
  qed
qed

text \<open>
  C9. In \<^verbatim>\<open>newman_girvan_modularity\<close>, for every graph and every list of communities, the
  node-to-community-id assignment passed to the modularity routine maps a node to the index
  of the last community of the list that contains it: when the node is in the \<open>i\<close>-th
  community and in none after it, there is one assignment \<open>part\<close> that every routine
  receives from the function, that \<open>community_modularity\<close> receives in particular, and
  whose entry for the node is \<open>i\<close>, whatever earlier communities the node is in.
\<close>

theorem last_community_wins:
  assumes "i < length P" and "node \<in> set (P ! i)"
    and "\<forall>j. i < j \<and> j < length P \<longrightarrow> node \<notin> set (P ! j)"
  shows "\<exists>part.
           (\<forall>routine :: ('a \<times> nat) list \<Rightarrow> 'a graph \<Rightarrow> 'r.
              newman_girvan_modularity_via routine G P = routine part (convert_graph_formats G)) \<and>
           newman_girvan_modularity G P = community_modularity part (convert_graph_formats G) \<and>
           map_of part node = Some i"
proof (intro exI conjI allI)
  show "map_of (assign_communities 0 P []) node = Some i"
    using assign_communities_last[OF assms, of 0 "[]"] by simp
qed (simp_all add: newman_girvan_modularity_def newman_girvan_modularity_via_def)

theorem last_community_wins_witness:
  "(1::nat) \<in> set ([[0, 1], [1, 2], [3]] ! 0) \<and> (1::nat) \<in> set ([[0, 1], [1, 2], [3]] ! 1) \<and>
   (\<exists>part.
      (\<forall>routine :: (nat \<times> nat) list \<Rightarrow> nat graph \<Rightarrow> (nat \<times> nat) list.
         newman_girvan_modularity_via routine ring4 [[0, 1], [1, 2], [3]]
           = routine part (convert_graph_formats ring4)) \<and>
      newman_girvan_modularity ring4 [[0, 1], [1, 2], [3]]
        = community_modularity part (convert_graph_formats ring4) \<and>
      map_of part 1 = Some 1) \<and>
   newman_girvan_modularity_via (\<lambda>part graph. part) ring4 [[0, 1], [1, 2], [3]]
     = [(0, 0), (1, 1), (2, 1), (3, 2)]"
proof -
  have "\<forall>j. 1 < j \<and> j < length [[0, 1], [1, 2], [3::nat]]
          \<longrightarrow> (1::nat) \<notin> set ([[0, 1], [1, 2], [3]] ! j)"
    by (auto simp: less_Suc_eq nth_Cons')
  with last_community_wins[of 1 "[[0, 1], [1, 2], [3::nat]]" 1 ring4,
      where ?'r = "(nat \<times> nat) list"]
  show ?thesis
    by (simp add: newman_girvan_modularity_via_def)
qed

text \<open>
  C8. On the ring of four nodes with edges 0-1, 1-2, 2-3, 3-0 and the communities
  \<open>[{0,1},{2,3}]\<close>, \<^verbatim>\<open>newman_girvan_modularity\<close> returns exactly 0.
\<close>

theorem ring_newman_girvan_zero:
  "newman_girvan_modularity ring4 [[0, 1], [2, 3]] = Inr 0"
  by (simp add: newman_girvan_modularity_def newman_girvan_modularity_via_def
      convert_graph_formats_def community_modularity_def
      ring4_def number_of_edges_def degree_def Let_def power2_eq_square)

subsection \<open>Surprise and significance on a graph without edges\<close>

text \<open>
  C5. For every graph with no edge and every list of communities, \<^verbatim>\<open>surprise\<close> and
  \<^verbatim>\<open>significance\<close> both raise \<^verbatim>\<open>ZeroDivisionError\<close> and return no value: the first at
  \<^verbatim>\<open>q / m\<close>, the second at \<^verbatim>\<open>m / binom\<close>.
\<close>

theorem no_edges_failure:
  assumes "number_of_edges G = 0"
  shows "surprise G P = Inl ZeroDivisionError \<and> significance G P = Inl ZeroDivisionError"
  using assms
  by (simp add: surprise_def significance_def py_truediv_def comb_def Let_def split: prod.split)

theorem no_edges_failure_witness:
  "number_of_edges \<lparr>nodes = [0::nat, 1], edges = []\<rparr> = 0 \<and>
   surprise \<lparr>nodes = [0::nat, 1], edges = []\<rparr> [[0], [1]] = Inl ZeroDivisionError \<and>
   significance \<lparr>nodes = [0::nat, 1], edges = []\<rparr> [[0], [1]] = Inl ZeroDivisionError"
  using no_edges_failure[of "\<lparr>nodes = [0::nat, 1], edges = []\<rparr>" "[[0], [1]]"]
  by (simp add: number_of_edges_def)

subsection \<open>Erdos-Renyi modularity\<close>

lemma few_nodes_no_edges:
  assumes "wf_graph G" and "number_of_nodes G \<le> 1"
  shows "number_of_edges G = 0"
proof (rule ccontr)
  assume "number_of_edges G \<noteq> 0"
  then obtain u v where e: "(u, v) \<in> set (edges G)"
    by (cases "edges G") (auto simp: number_of_edges_def)
  with assms(1) have "u \<in> set (nodes G)" "v \<in> set (nodes G)" "u \<noteq> v"
    by (auto simp: wf_graph_def nx_graph_def no_selfloops_def)
  then have "card {u, v} \<le> card (set (nodes G))"
    by (intro card_mono) auto
  also have "\<dots> \<le> length (nodes G)"
    by (rule card_length)
  finally show False
    using \<open>u \<noteq> v\<close> assms(2) by (simp add: number_of_nodes_def)
qed

lemma erdos_renyi_loop_sum:
  "n * (n - 1) \<noteq> 0 \<Longrightarrow>
   erdos_renyi_loop G m n P q =
     Inr (q + (\<Sum>com\<leftarrow>P. real_of_int (number_of_edges (subgraph G com))
                 - real_of_int (m * number_of_nodes (subgraph G com)
                                  * (number_of_nodes (subgraph G com) - 1))
                   / real_of_int (n * (n - 1))))"
  by (induction P arbitrary: q) (simp_all add: py_truediv_def Let_def)

lemma erdos_renyi_loop_fails:
  "n * (n - 1) = 0 \<Longrightarrow> P \<noteq> [] \<Longrightarrow> erdos_renyi_loop G m n P q = Inl ZeroDivisionError"
  by (cases P) (simp_all add: py_truediv_def Let_def)

lemma erdos_renyi_modularity_closed:
  "erdos_renyi_modularity G P =
     (if (number_of_nodes G * (number_of_nodes G - 1) = 0 \<and> P \<noteq> []) \<or> number_of_edges G = 0
      then Inl ZeroDivisionError
      else Inr (1 / real_of_int (number_of_edges G) *
             (\<Sum>com\<leftarrow>P. real_of_int (number_of_edges (subgraph G com))
                 - real_of_int (number_of_edges G * number_of_nodes (subgraph G com)
                                  * (number_of_nodes (subgraph G com) - 1))
                   / real_of_int (number_of_nodes G * (number_of_nodes G - 1)))))"
proof (cases "number_of_nodes G * (number_of_nodes G - 1) = 0")
  case True
  show ?thesis
  proof (cases "P = []")
    case True
    then show ?thesis
      by (simp add: erdos_renyi_modularity_def py_truediv_def)
  next
    case False
    with True show ?thesis
      by (simp add: erdos_renyi_modularity_def erdos_renyi_loop_fails)
  qed
next
  case False
  then show ?thesis
    by (simp add: erdos_renyi_modularity_def erdos_renyi_loop_sum py_truediv_def Let_def)
qed

text \<open>
  C2. For a graph of the specification with \<open>m\<close> edges and \<open>n\<close> nodes and any list of
  communities: when \<open>m > 0\<close> and \<open>n > 1\<close>, \<^verbatim>\<open>erdos_renyi_modularity\<close> returns
  \<open>(1/m) * \<Sum>\<^sub>c (mc - m * nc * (nc - 1) / (n * (n - 1)))\<close> with \<open>mc\<close> and \<open>nc\<close> the edge and
  node counts of the subgraph induced by \<open>c\<close>; when \<open>n \<le> 1\<close> or \<open>m = 0\<close> the call raises
  \<^verbatim>\<open>ZeroDivisionError\<close>.
\<close>

theorem erdos_renyi_modularity_formula:
  assumes "wf_graph G"
  shows "(0 < number_of_edges G \<and> 1 < number_of_nodes G \<longrightarrow>
          erdos_renyi_modularity G P =
            Inr (1 / real_of_int (number_of_edges G) *
              (\<Sum>com\<leftarrow>P. real_of_int (number_of_edges (subgraph G com))
                 - real_of_int (number_of_edges G * number_of_nodes (subgraph G com)
                                  * (number_of_nodes (subgraph G com) - 1))
                   / real_of_int (number_of_nodes G * (number_of_nodes G - 1))))) \<and>
         (number_of_nodes G \<le> 1 \<or> number_of_edges G = 0 \<longrightarrow>
          erdos_renyi_modularity G P = Inl ZeroDivisionError)"
proof (intro conjI impI)
  assume "0 < number_of_edges G \<and> 1 < number_of_nodes G"
  then have "number_of_edges G \<noteq> 0" "number_of_nodes G * (number_of_nodes G - 1) \<noteq> 0"
    by auto
  then show "erdos_renyi_modularity G P =
            Inr (1 / real_of_int (number_of_edges G) *
              (\<Sum>com\<leftarrow>P. real_of_int (number_of_edges (subgraph G com))
                 - real_of_int (number_of_edges G * number_of_nodes (subgraph G com)
                                  * (number_of_nodes (subgraph G com) - 1))
                   / real_of_int (number_of_nodes G * (number_of_nodes G - 1))))"
    by (simp only: erdos_renyi_modularity_closed if_False simp_thms)
next
  assume "number_of_nodes G \<le> 1 \<or> number_of_edges G = 0"
  then have "number_of_edges G = 0"
    using few_nodes_no_edges[OF assms] by blast
  then show "erdos_renyi_modularity G P = Inl ZeroDivisionError"
    by (simp add: erdos_renyi_modularity_closed)
qed

theorem erdos_renyi_modularity_formula_witness:
  "wf_graph ring4 \<and> 0 < number_of_edges ring4 \<and> 1 < number_of_nodes ring4 \<and>
   erdos_renyi_modularity ring4 [[0, 1], [2, 3]] = Inr (1 / 6) \<and>
   wf_graph \<lparr>nodes = [0::nat], edges = []\<rparr> \<and>
   number_of_nodes \<lparr>nodes = [0::nat], edges = []\<rparr> \<le> 1 \<and>
   erdos_renyi_modularity \<lparr>nodes = [0::nat], edges = []\<rparr> [[0]] = Inl ZeroDivisionError"
proof -
  have w: "wf_graph \<lparr>nodes = [0::nat], edges = []\<rparr>"
    by (simp add: wf_graph_def nx_graph_def no_selfloops_def)
  have n: "number_of_nodes \<lparr>nodes = [0::nat], edges = []\<rparr> \<le> 1"
    by (simp add: number_of_nodes_def)
  have r: "0 < number_of_edges ring4 \<and> 1 < number_of_nodes ring4"
    by (simp add: number_of_edges_def number_of_nodes_def ring4_def)
  have "erdos_renyi_modularity ring4 [[0, 1], [2, 3]] = Inr (1 / 6)"
    using erdos_renyi_modularity_formula[OF wf_ring4, of "[[0, 1], [2, 3]]"] r
    by (simp add: number_of_edges_def number_of_nodes_def ring4_def subgraph_def)
  moreover have "erdos_renyi_modularity \<lparr>nodes = [0::nat], edges = []\<rparr> [[0]]
                 = Inl ZeroDivisionError"
    using erdos_renyi_modularity_formula[OF w, of "[[0]]"] n by simp
  ultimately show ?thesis
    using wf_ring4 w n r by simp
qed

subsection \<open>The order of the communities\<close>

lemma np_mean_nonempty: "xs \<noteq> [] \<Longrightarrow> np_mean xs = Finite (sum_list xs / real (length xs))"
  by (simp add: np_mean_def)

lemma modularity_density_loop_closed:
  "modularity_density_loop G P (Finite a) =
     (if \<exists>com\<in>set P. number_of_nodes (subgraph G com) = 0 then Inl ZeroDivisionError
      else Inr (Finite (a + (\<Sum>com\<leftarrow>P.
             1 / real_of_int (number_of_nodes (subgraph G com)) *
             (sum_list (map (\<lambda>node. real_of_int (degree (subgraph G com) node))
                            (nodes (subgraph G com)))
                / real (length (nodes (subgraph G com)))
              - sum_list (map (\<lambda>node. real_of_int (degree G node - degree (subgraph G com) node))
                              (nodes (subgraph G com)))
                / real (length (nodes (subgraph G com))))))))"
proof (induction P arbitrary: a)
  case Nil
  then show ?case by simp
next
  case (Cons com P)
  show ?case
  proof (cases "number_of_nodes (subgraph G com) = 0")
    case True
    then show ?thesis by (simp add: py_truediv_def)
  next
    case False
    then have ne: "nodes (subgraph G com) \<noteq> []"
      by (simp add: number_of_nodes_def)
    show ?thesis
      using False ne
      by (simp add: py_truediv_def Let_def np_mean_nonempty np_sub_def Cons.IH)
  qed
qed

lemma sum_list_map_mset:
  fixes f :: "'b \<Rightarrow> real"
  assumes "mset xs = mset ys"
  shows "sum_list (map f xs) = sum_list (map f ys)"
proof -
  have "sum_mset (mset (map f xs)) = sum_mset (mset (map f ys))"
    using assms by simp
  then show ?thesis
    by (simp only: sum_mset_sum_list)
qed

lemma subgraph_of_set:
  "subgraph G com =
     \<lparr>nodes = filter (\<lambda>v. v \<in> set com) (nodes G),
      edges = filter (\<lambda>(u, v). u \<in> set com \<and> v \<in> set com) (edges G)\<rparr>"
  by (simp add: subgraph_def)

lemma sum_list_through_set:
  fixes t :: "'b set \<Rightarrow> real"
  assumes "mset (map set P) = mset (map set P')"
  shows "(\<Sum>com\<leftarrow>P. t (set com)) = (\<Sum>com\<leftarrow>P'. t (set com))"
  using sum_list_map_mset[OF assms, of t] by (simp add: comp_def)

lemma exists_through_set:
  assumes "mset (map set P) = mset (map set P')"
  shows "(\<exists>com\<in>set P. Q (set com)) \<longleftrightarrow> (\<exists>com\<in>set P'. Q (set com))"
proof -
  have "set (map set P) = set (map set P')"
    using assms by (rule mset_eq_setD)
  then have "(\<exists>S\<in>set (map set P). Q S) \<longleftrightarrow> (\<exists>S\<in>set (map set P'). Q S)"
    by simp
  then show ?thesis by simp
qed

lemma sum_list_subgraphs:
  fixes f :: "'a graph \<Rightarrow> real"
  assumes "mset (map set P) = mset (map set P')"
  shows "(\<Sum>com\<leftarrow>P. f (subgraph G com)) = (\<Sum>com\<leftarrow>P'. f (subgraph G com))"
  using sum_list_through_set[OF assms,
      of "\<lambda>S. f \<lparr>nodes = filter (\<lambda>v. v \<in> S) (nodes G),
                  edges = filter (\<lambda>(u, v). u \<in> S \<and> v \<in> S) (edges G)\<rparr>"]
  by (simp add: subgraph_def)

lemma exists_subgraphs:
  assumes "mset (map set P) = mset (map set P')"
  shows "(\<exists>com\<in>set P. Q (subgraph G com)) \<longleftrightarrow> (\<exists>com\<in>set P'. Q (subgraph G com))"
  using exists_through_set[OF assms,
      of "\<lambda>S. Q \<lparr>nodes = filter (\<lambda>v. v \<in> S) (nodes G),
                  edges = filter (\<lambda>(u, v). u \<in> S \<and> v \<in> S) (edges G)\<rparr>"]
  by (simp add: subgraph_def)

lemma exact_order_invariance:
  assumes "mset (map set P) = mset (map set P')"
  shows "erdos_renyi_modularity G P = erdos_renyi_modularity G P' \<and>
         modularity_density G P = modularity_density G P'"
proof -
  have e: "P = [] \<longleftrightarrow> P' = []"
    using assms by (metis map_is_Nil_conv mset_zero_iff)
  have "(\<Sum>com\<leftarrow>P. (\<lambda>c. real_of_int (number_of_edges c)
                 - real_of_int (number_of_edges G * number_of_nodes c * (number_of_nodes c - 1))
                   / real_of_int (number_of_nodes G * (number_of_nodes G - 1))) (subgraph G com))
      = (\<Sum>com\<leftarrow>P'. (\<lambda>c. real_of_int (number_of_edges c)
                 - real_of_int (number_of_edges G * number_of_nodes c * (number_of_nodes c - 1))
                   / real_of_int (number_of_nodes G * (number_of_nodes G - 1))) (subgraph G com))"
    using assms by (rule sum_list_subgraphs)
  then have "erdos_renyi_modularity G P = erdos_renyi_modularity G P'"
    unfolding erdos_renyi_modularity_closed e by (simp only:)
  moreover
  have "(\<Sum>com\<leftarrow>P. (\<lambda>c. 1 / real_of_int (number_of_nodes c) *
             (sum_list (map (\<lambda>node. real_of_int (degree c node)) (nodes c))
                / real (length (nodes c))
              - sum_list (map (\<lambda>node. real_of_int (degree G node - degree c node)) (nodes c))
                / real (length (nodes c)))) (subgraph G com))
      = (\<Sum>com\<leftarrow>P'. (\<lambda>c. 1 / real_of_int (number_of_nodes c) *
             (sum_list (map (\<lambda>node. real_of_int (degree c node)) (nodes c))
                / real (length (nodes c))
              - sum_list (map (\<lambda>node. real_of_int (degree G node - degree c node)) (nodes c))
                / real (length (nodes c)))) (subgraph G com))"
    using assms by (rule sum_list_subgraphs)
  moreover have "(\<exists>com\<in>set P. (\<lambda>c. number_of_nodes c = 0) (subgraph G com))
      \<longleftrightarrow> (\<exists>com\<in>set P'. (\<lambda>c. number_of_nodes c = 0) (subgraph G com))"
    using assms by (rule exists_subgraphs)
  ultimately show ?thesis
    by (simp add: modularity_density_def modularity_density_loop_closed)
qed

subsection \<open>Z-modularity\<close>

lemma fold_add_sum_list:
  "fold (\<lambda>node dc. dc + f node) xs (a::int) = a + sum_list (map f xs)"
  by (induction xs arbitrary: a) simp_all

lemma degree_sum_sum_list: "degree_sum c = (\<Sum>node\<leftarrow>nodes c. degree c node)"
  by (simp add: degree_sum_def fold_add_sum_list)

lemma sum_list_indicator:
  "distinct ns \<Longrightarrow> a \<in> set ns \<Longrightarrow> (\<Sum>node\<leftarrow>ns. if a = node then 1 else (0::int)) = 1"
proof (induction ns)
  case Nil
  then show ?case by simp
next
  case (Cons x ns)
  show ?case
  proof (cases "a = x")
    case True
    with Cons.prems have "\<forall>node\<in>set ns. a \<noteq> node" by auto
    then have "(\<Sum>node\<leftarrow>ns. if a = node then 1 else (0::int)) = 0"
      by (induction ns) auto
    with True show ?thesis by simp
  next
    case False
    with Cons show ?thesis by simp
  qed
qed

lemma handshake:
  assumes "distinct ns" and "\<forall>(u, v)\<in>set es. u \<in> set ns \<and> v \<in> set ns"
  shows "(\<Sum>node\<leftarrow>ns. int (length (filter (\<lambda>(u, v). u = node) es)) +
                      int (length (filter (\<lambda>(u, v). v = node) es))) = 2 * int (length es)"
  using assms(2)
proof (induction es)
  case Nil
  then show ?case by simp
next
  case (Cons e es)
  obtain a b where e: "e = (a, b)" by (cases e)
  from Cons.prems e have ab: "a \<in> set ns" "b \<in> set ns" and rest: "\<forall>(u, v)\<in>set es. u \<in> set ns \<and> v \<in> set ns"
    by auto
  have "(\<Sum>node\<leftarrow>ns. int (length (filter (\<lambda>(u, v). u = node) (e # es))) +
                      int (length (filter (\<lambda>(u, v). v = node) (e # es))))
      = (\<Sum>node\<leftarrow>ns. (if a = node then 1 else 0) + ((if b = node then 1 else 0) +
            (int (length (filter (\<lambda>(u, v). u = node) es)) +
                      int (length (filter (\<lambda>(u, v). v = node) es)))))"
    by (rule arg_cong[where f = sum_list]) (auto simp: e)
  also have "\<dots> = (\<Sum>node\<leftarrow>ns. if a = node then 1 else 0) + ((\<Sum>node\<leftarrow>ns. if b = node then 1 else 0) +
            (\<Sum>node\<leftarrow>ns. int (length (filter (\<lambda>(u, v). u = node) es)) +
                      int (length (filter (\<lambda>(u, v). v = node) es))))"
    by (simp only: sum_list_addf)
  also have "\<dots> = 1 + (1 + 2 * int (length es))"
    by (simp only: sum_list_indicator[OF assms(1) ab(1)] sum_list_indicator[OF assms(1) ab(2)]
        Cons.IH[OF rest])
  finally show ?case by simp
qed

lemma degree_sum_subgraph:
  assumes "nx_graph G"
  shows "degree_sum (subgraph G com) = 2 * number_of_edges (subgraph G com)"
proof -
  have d: "distinct (nodes (subgraph G com))"
    using assms by (simp add: nx_graph_def subgraph_def)
  have "\<forall>(u, v)\<in>set (edges (subgraph G com)).
          u \<in> set (nodes (subgraph G com)) \<and> v \<in> set (nodes (subgraph G com))"
    using assms by (auto simp: nx_graph_def subgraph_def)
  from handshake[OF d this] show ?thesis
    by (simp add: degree_sum_sum_list degree_def number_of_edges_def)
qed

lemma z_modularity_loop_sums:
  "m \<noteq> 0 \<Longrightarrow>
   z_modularity_loop G m P (a, b) =
     Inr (a + (\<Sum>com\<leftarrow>P. real_of_int (number_of_edges (subgraph G com)) / real_of_int m),
          b + (\<Sum>com\<leftarrow>P. (real_of_int (degree_sum (subgraph G com)) / real_of_int (2 * m))\<^sup>2))"
  by (induction P arbitrary: a b) (simp_all add: py_truediv_def Let_def)

text \<open>
  C10. In \<^verbatim>\<open>z_modularity\<close>, for every graph and every community, the accumulated degree
  sum \<open>dc\<close> over the nodes of the induced subgraph is \<open>2 * mc\<close>, twice its number of edges.
  Hence, whenever \<open>m > 0\<close>, \<^verbatim>\<open>z_modularity\<close> returns the simplified expression
  \<open>(\<Sum>\<^sub>c mc/m - \<Sum>\<^sub>c (mc/m)\<^sup>2) / sqrt (\<Sum>\<^sub>c (mc/m)\<^sup>2 * (1 - \<Sum>\<^sub>c (mc/m)\<^sup>2))\<close>.
\<close>

theorem z_modularity_refines_simplified:
  assumes "nx_graph G"
  shows "(\<forall>com. degree_sum (subgraph G com) = 2 * number_of_edges (subgraph G com)) \<and>
         (0 < number_of_edges G \<longrightarrow> z_modularity G P = Inr (z_modularity_simplified G P))"
proof (intro conjI allI impI)
  fix com
  show "degree_sum (subgraph G com) = 2 * number_of_edges (subgraph G com)"
    by (rule degree_sum_subgraph[OF assms])
next
  assume "0 < number_of_edges G"
  then have m: "number_of_edges G \<noteq> 0" by simp
  have "(real_of_int (degree_sum (subgraph G com)) / real_of_int (2 * number_of_edges G))
        = real_of_int (number_of_edges (subgraph G com)) / real_of_int (number_of_edges G)" for com
    by (simp add: degree_sum_subgraph[OF assms])
  then show "z_modularity G P = Inr (z_modularity_simplified G P)"
    by (simp add: z_modularity_def z_modularity_simplified_def z_modularity_loop_sums[OF m] Let_def)
qed

theorem z_modularity_refines_simplified_witness:
  "nx_graph ring4 \<and> 0 < number_of_edges ring4 \<and>
   degree_sum (subgraph ring4 [1, 2, 3]) = 2 * number_of_edges (subgraph ring4 [1, 2, 3]) \<and>
   z_modularity ring4 [[0, 1], [2, 3]] = Inr (Finite (3 / 8 / sqrt (7 / 64)))"
proof -
  have m: "0 < number_of_edges ring4"
    by (simp add: number_of_edges_def ring4_def)
  have "z_modularity_simplified ring4 [[0, 1], [2, 3]] = Finite (3 / 8 / sqrt (7 / 64))"
    by (simp add: z_modularity_simplified_def ring4_def subgraph_def number_of_edges_def
        np_sqrt_def power2_eq_square)
  with z_modularity_refines_simplified[OF nx_ring4, of "[[0, 1], [2, 3]]"] m nx_ring4
  show ?thesis by simp
qed

section \<open>Properties of the computations in doubles\<close>

subsection \<open>Rounding\<close>

lemma rne_of_int: "rne (of_int k) = of_int k"
  by (simp add: rne_def)

lemma rne_cases: "rne x = of_int \<lfloor>x\<rfloor> \<or> rne x = of_int (\<lfloor>x\<rfloor> + 1)"
  by (simp add: rne_def Let_def)

lemma rne_nonneg: "0 \<le> x \<Longrightarrow> 0 \<le> rne x"
  using rne_cases[of x] by (auto simp: zero_le_floor)

lemma rne_range:
  assumes "2 ^ 52 \<le> x" and "x < 2 ^ 53"
  shows "\<exists>k. rne x = of_int k \<and> 2 ^ 52 \<le> k \<and> k \<le> 2 ^ 53"
proof -
  have lo: "2 ^ 52 \<le> \<lfloor>x\<rfloor>"
    using assms(1) by (simp add: le_floor_iff)
  have hi: "\<lfloor>x\<rfloor> < 2 ^ 53"
    using assms(2) by (simp add: floor_less_iff)
  from rne_cases[of x] show ?thesis
  proof
    assume "rne x = of_int \<lfloor>x\<rfloor>"
    with lo hi show ?thesis by (intro exI[of _ "\<lfloor>x\<rfloor>"]) simp
  next
    assume "rne x = of_int (\<lfloor>x\<rfloor> + 1)"
    with lo hi show ?thesis by (intro exI[of _ "\<lfloor>x\<rfloor> + 1"]) simp
  qed
qed

lemma flpos_nonpos: "x \<le> 0 \<Longrightarrow> flpos x = 0"
  by (simp add: flpos.simps)

lemma flpos_nonneg: "0 \<le> flpos x"
proof (induction x rule: flpos.induct)
  case (1 x)
  show ?case
  proof (cases "x \<le> 0")
    case True
    then show ?thesis by (simp add: flpos_nonpos)
  next
    case pos: False
    show ?thesis
    proof (cases "2 ^ 53 \<le> x")
      case True
      with pos "1.IH"(1) show ?thesis by (subst flpos.simps) simp
    next
      case big: False
      show ?thesis
      proof (cases "x < 2 ^ 52")
        case True
        with pos big "1.IH"(2) show ?thesis by (subst flpos.simps) simp
      next
        case False
        with pos big show ?thesis by (subst flpos.simps) (simp add: rne_nonneg)
      qed
    qed
  qed
qed

lemma flpos_double: "flpos (2 * x) = 2 * flpos x"
proof (cases "x \<le> 0")
  case True
  then show ?thesis by (simp add: flpos_nonpos)
next
  case pos: False
  show ?thesis
  proof (cases "x < 2 ^ 52")
    case True
    with pos show ?thesis by (subst (2) flpos.simps) simp
  next
    case False
    with pos show ?thesis by (subst flpos.simps) simp
  qed
qed

lemma flpos_half: "flpos (x / 2) = flpos x / 2"
  using flpos_double[of "x / 2"] by simp

lemma flpos_int:
  assumes "2 ^ 52 \<le> k" and "k \<le> 2 ^ 53"
  shows "flpos (of_int k) = of_int k"
proof (cases "k = 2 ^ 53")
  case True
  have "flpos (2 ^ 52) = 2 ^ 52"
    using rne_of_int[of "2 ^ 52"] by (subst flpos.simps) simp
  then have "flpos (2 * 2 ^ 52) = 2 * 2 ^ 52"
    by (simp only: flpos_double)
  with True show ?thesis by simp
next
  case False
  with assms have "(2::real) ^ 52 \<le> of_int k" "real_of_int k < 2 ^ 53"
    by (simp_all add: of_int_le_iff[of "2 ^ 52", simplified] of_int_less_iff[of _ "2 ^ 53", simplified])
  then show ?thesis
    by (subst flpos.simps) (simp add: rne_of_int)
qed

lemma flpos_idem: "flpos (flpos x) = flpos x"
proof (induction x rule: flpos.induct)
  case (1 x)
  show ?case
  proof (cases "x \<le> 0")
    case True
    then show ?thesis by (simp add: flpos_nonpos)
  next
    case pos: False
    show ?thesis
    proof (cases "2 ^ 53 \<le> x")
      case True
      have "flpos x = 2 * flpos (x / 2)"
        using pos True by (subst flpos.simps) simp
      with "1.IH"(1)[OF pos True] show ?thesis
        by (simp add: flpos_double)
    next
      case big: False
      show ?thesis
      proof (cases "x < 2 ^ 52")
        case True
        have e: "flpos x = flpos (2 * x) / 2"
          using pos big True by (subst flpos.simps) simp
        have "flpos (flpos (2 * x) / 2) = flpos (flpos (2 * x)) / 2"
          by (rule flpos_half)
        also have "\<dots> = flpos (2 * x) / 2"
          by (simp only: "1.IH"(2)[OF pos big True])
        finally show ?thesis
          by (simp only: e)
      next
        case False
        then have "flpos x = rne x"
          using pos big by (subst flpos.simps) simp
        moreover obtain k where "rne x = of_int k" "2 ^ 52 \<le> k" "k \<le> 2 ^ 53"
          using rne_range[of x] False big by auto
        ultimately show ?thesis
          by (simp add: flpos_int)
      qed
    qed
  qed
qed


lemma fl_zero: "fl 0 = 0"
  by (simp add: fl_def flpos_nonpos)

lemma fl_idem: "fl (fl x) = fl x"
proof (cases "x < 0")
  case True
  show ?thesis
  proof (cases "flpos (- x) = 0")
    case True
    with \<open>x < 0\<close> show ?thesis by (simp add: fl_def flpos_nonpos)
  next
    case False
    then have "0 < flpos (- x)"
      using flpos_nonneg[of "- x"] by simp
    with True show ?thesis by (simp add: fl_def flpos_idem)
  qed
next
  case False
  then show ?thesis
    using flpos_nonneg[of x] by (simp add: fl_def flpos_idem)
qed

lemmas eval_fl = fl_def flpos.simps rne_def py_truediv_double_def np_fl_def

subsection \<open>The summary of \<^verbatim>\<open>quality_indexes\<close>\<close>









subsection \<open>The order of the communities in doubles\<close>

lemma erdos_renyi_double_swap:
  "erdos_renyi_modularity_double G [a, b] = erdos_renyi_modularity_double G [b, a]"
  by (simp add: erdos_renyi_modularity_double_def py_truediv_double_def Let_def fl_idem
      add.commute)

lemma np_mean_double_nonempty:
  "xs \<noteq> [] \<Longrightarrow> np_mean_double xs = Finite (fl (pairwise_sum xs / real (length xs)))"
  by (simp add: np_mean_double_def)

lemma modularity_density_double_step:
  "modularity_density_loop_double G (a # rest) (Finite q) =
     (if number_of_nodes (subgraph G a) = 0 then Inl ZeroDivisionError
      else modularity_density_loop_double G rest
             (Finite (fl (q + fl (fl (1 / real_of_int (number_of_nodes (subgraph G a))) *
                fl (fl (pairwise_sum (map (\<lambda>node. fl (real_of_int (degree (subgraph G a) node)))
                                         (nodes (subgraph G a)))
                        / real (length (nodes (subgraph G a))))
                    - fl (pairwise_sum (map (\<lambda>node. fl (real_of_int (degree G node
                                                        - degree (subgraph G a) node)))
                                           (nodes (subgraph G a)))
                          / real (length (nodes (subgraph G a))))))))))"
proof (cases "number_of_nodes (subgraph G a) = 0")
  case True
  then show ?thesis by (simp add: py_truediv_double_def)
next
  case False
  then have "nodes (subgraph G a) \<noteq> []"
    by (simp add: number_of_nodes_def)
  with False show ?thesis
    by (simp add: py_truediv_double_def Let_def np_mean_double_nonempty np_sub_def np_fl_def)
qed

lemma modularity_density_double_swap:
  "modularity_density_double G [a, b] = modularity_density_double G [b, a]"
  by (simp add: modularity_density_double_def modularity_density_double_step fl_idem add.commute
      del: modularity_density_loop_double.simps(2))

text \<open>
  C7. For every graph and every two lists that hold the same communities in different
  orders, \<^verbatim>\<open>erdos_renyi_modularity\<close> and \<^verbatim>\<open>modularity_density\<close> return the same result
  when the arithmetic is exact (the sum over communities is commutative). Computed in
  doubles they return the same result for two communities in either order; with three or
  more communities the doubles can differ by rounding.
\<close>

theorem community_order_exact_and_pairs:
  "(mset (map set P) = mset (map set P') \<longrightarrow>
      erdos_renyi_modularity G P = erdos_renyi_modularity G P' \<and>
      modularity_density G P = modularity_density G P') \<and>
   erdos_renyi_modularity_double G [a, b] = erdos_renyi_modularity_double G [b, a] \<and>
   modularity_density_double G [a, b] = modularity_density_double G [b, a]"
  using exact_order_invariance[of P P' G] erdos_renyi_double_swap[of G a b]
    modularity_density_double_swap[of G a b]
  by blast

theorem community_order_exact_and_pairs_witness:
  "mset (map set [[0, 1], [2, 3], [4, 5::nat]]) = mset (map set [[5, 4], [0, 1], [2, 3]]) \<and>
   erdos_renyi_modularity three_pairs [[0, 1], [2, 3], [4, 5]] = Inr (2 / 15) \<and>
   erdos_renyi_modularity three_pairs [[5, 4], [0, 1], [2, 3]] = Inr (2 / 15) \<and>
   modularity_density three_pairs [[0, 1], [2, 3], [4, 5]]
     = modularity_density three_pairs [[5, 4], [0, 1], [2, 3]] \<and>
   erdos_renyi_modularity_double three_pairs [[0, 1], [4, 5]]
     = erdos_renyi_modularity_double three_pairs [[4, 5], [0, 1]] \<and>
   modularity_density_double three_pairs [[0, 1], [4, 5]]
     = modularity_density_double three_pairs [[4, 5], [0, 1]]"
proof -
  have m: "mset (map set [[0, 1], [2, 3], [4, 5::nat]]) = mset (map set [[5, 4], [0, 1], [2, 3]])"
    by (simp add: insert_commute)
  have e: "erdos_renyi_modularity three_pairs [[0, 1], [2, 3], [4, 5]] = Inr (2 / 15)"
    by (simp add: erdos_renyi_modularity_def three_pairs_def subgraph_def number_of_edges_def
        number_of_nodes_def py_truediv_def)
  from community_order_exact_and_pairs[of "[[0, 1], [2, 3], [4, 5]]" "[[5, 4], [0, 1], [2, 3]]"
      three_pairs "[0, 1]" "[4, 5]"] m e
  show ?thesis by simp
qed

text \<open>
  With three communities the accumulated doubles depend on the order:
  \<^verbatim>\<open>erdos_renyi_modularity\<close> returns \<open>0.13333333333333333\<close> and \<open>0.13333333333333336\<close> on
  the same three communities in two orders, \<^verbatim>\<open>modularity_density\<close> \<open>-3.3333333333333335\<close>
  and \<open>-3.333333333333333\<close>.
\<close>

theorem community_order_changes_result:
  "mset (map set [[0, 1], [2, 3], [4, 5::nat]]) = mset (map set [[4, 5], [0, 1], [2, 3]]) \<and>
   erdos_renyi_modularity_double three_pairs [[0, 1], [2, 3], [4, 5]]
     = Inr (4803839602528529 / 2 ^ 55) \<and>
   erdos_renyi_modularity_double three_pairs [[4, 5], [0, 1], [2, 3]]
     = Inr (2401919801264265 / 2 ^ 54) \<and>
   erdos_renyi_modularity_double three_pairs [[0, 1], [2, 3], [4, 5]]
     \<noteq> erdos_renyi_modularity_double three_pairs [[4, 5], [0, 1], [2, 3]] \<and>
   mset (map set [[0], [1, 2, 4], [3::nat]]) = mset (map set [[1, 2, 4], [3], [0]]) \<and>
   modularity_density_double small_tree [[0], [1, 2, 4], [3]]
     = Inr (Finite (- (7505999378950827 / 2 ^ 51))) \<and>
   modularity_density_double small_tree [[1, 2, 4], [3], [0]]
     = Inr (Finite (- (3752999689475413 / 2 ^ 50))) \<and>
   modularity_density_double small_tree [[0], [1, 2, 4], [3]]
     \<noteq> modularity_density_double small_tree [[1, 2, 4], [3], [0]]"
proof -
  have e1: "erdos_renyi_modularity_double three_pairs [[0, 1], [2, 3], [4, 5]]
     = Inr (4803839602528529 / 2 ^ 55)"
    by (simp add: erdos_renyi_modularity_double_def three_pairs_def subgraph_def
        number_of_edges_def number_of_nodes_def eval_fl)
  have e2: "erdos_renyi_modularity_double three_pairs [[4, 5], [0, 1], [2, 3]]
     = Inr (2401919801264265 / 2 ^ 54)"
    by (simp add: erdos_renyi_modularity_double_def three_pairs_def subgraph_def
        number_of_edges_def number_of_nodes_def eval_fl)
  have d1: "modularity_density_double small_tree [[0], [1, 2, 4], [3]]
     = Inr (Finite (- (7505999378950827 / 2 ^ 51)))"
    by (simp add: modularity_density_double_def small_tree_def subgraph_def degree_def
        number_of_nodes_def np_mean_double_def pairwise_sum.simps np_sub_def eval_fl)
  have d2: "modularity_density_double small_tree [[1, 2, 4], [3], [0]]
     = Inr (Finite (- (3752999689475413 / 2 ^ 50)))"
    by (simp add: modularity_density_double_def small_tree_def subgraph_def degree_def
        number_of_nodes_def np_mean_double_def pairwise_sum.simps np_sub_def eval_fl)
  have m1: "mset (map set [[0, 1], [2, 3], [4, 5::nat]]) = mset (map set [[4, 5], [0, 1], [2, 3]])"
    by (simp add: insert_commute)
  have m2: "mset (map set [[0], [1, 2, 4], [3::nat]]) = mset (map set [[1, 2, 4], [3], [0]])"
    by (simp add: insert_commute)
  show ?thesis
    unfolding e1 e2 d1 d2 using m1 m2 by simp
qed

end
